theory Spec2Isabelle
  imports Main "HOL-Library.Word" "HOL-Library.Sublist"
begin

section \<open>Priorities (prioritize.go, lines 10-16)\<close>

text \<open>
  The four untyped Go constants of the \<^verbatim>\<open>const\<close> block; an untyped integer constant
  is an exact integer.
\<close>

definition Low :: int where "Low = 1"
definition Normal :: int where "Normal = 2"
definition Important :: int where "Important = 3"
definition Critical :: int where "Critical = 4"

section \<open>The transaction handle (prioritize.go, lines 18-75)\<close>

text \<open>
  \<^verbatim>\<open>Prioritize\<close> is the handle. Its field \<^verbatim>\<open>bot *OGame\<close> is not a field of the
  record: everything the handle does to the bot is a call of one of the bot's methods,
  and the model threads a \<open>world\<close> through instead, which holds what those calls leave
  behind. \<^verbatim>\<open>taskIsDoneCh chan struct{}\<close> is a reference: \<open>None\<close> is the nil channel,
  \<open>Some c\<close> the channel with identity \<open>c\<close>; whether a channel has been closed is kept
  in the world, since a channel is a shared object. \<^verbatim>\<open>isTx int32\<close> is a 32-bit word, so
  that \<^verbatim>\<open>atomic.AddInt32\<close> wraps around as in Go.
\<close>

record Prioritize =
  initiator :: string
  name :: string
  taskIsDoneCh :: "nat option"
  isTx :: "32 word"

text \<open>
  What the code does outside the handle, in the order it does it: the calls of
  \<^verbatim>\<open>b.bot.botLock\<close> and \<^verbatim>\<open>b.bot.botUnlock\<close> with the label passed, and every
  successful \<^verbatim>\<open>close\<close> of a channel.
\<close>

datatype event = BotLock string | BotUnlock string | CloseChan nat

record world =
  closedChans :: "nat set"
  trace :: "event list"

type_synonym state = "Prioritize \<times> world"

text \<open>A Go call either returns or panics; a panic keeps the state reached so far.\<close>

datatype 'a outcome = Returned 'a | Panicked string

text \<open>
  Modelled from the spec: \<^verbatim>\<open>botLock\<close> and \<^verbatim>\<open>botUnlock\<close> are methods of \<^verbatim>\<open>OGame\<close>
  that \<^verbatim>\<open>prioritize.go\<close> calls and that are defined elsewhere in the repository. The
  spec describes them as the request for the exclusive section and its release towards
  the scheduler. The model records each call with the label the handle passes; it says
  nothing about what the scheduler does with it (blocking included).
\<close>

definition botLock :: "string \<Rightarrow> world \<Rightarrow> world" where
  "botLock lockedBy w = w\<lparr>trace := trace w @ [BotLock lockedBy]\<rparr>"

definition botUnlock :: "string \<Rightarrow> world \<Rightarrow> world" where
  "botUnlock unlockedBy w = w\<lparr>trace := trace w @ [BotUnlock unlockedBy]\<rparr>"

text \<open>
  Go's builtin \<^verbatim>\<open>close\<close>: closing the nil channel panics, closing a closed channel
  panics, closing an open channel marks it closed.
\<close>

definition close_chan :: "nat option \<Rightarrow> world \<Rightarrow> unit outcome \<times> world" where
  "close_chan ch w =
     (case ch of
        None \<Rightarrow> (Panicked ''close of nil channel'', w)
      | Some c \<Rightarrow>
          if c \<in> closedChans w then (Panicked ''close of closed channel'', w)
          else (Returned (), w\<lparr>closedChans := insert c (closedChans w),
                                trace := trace w @ [CloseChan c]\<rparr>))"

text \<open>\<^verbatim>\<open>SetInitiator\<close> (lines 27-31).\<close>

definition SetInitiator :: "string \<Rightarrow> state \<Rightarrow> state" where
  "SetInitiator i s = (case s of (b, w) \<Rightarrow> (b\<lparr>initiator := i\<rparr>, w))"

text \<open>
  \<^verbatim>\<open>begin\<close> (lines 51-60); the name carries a suffix because \<open>begin\<close> is a keyword.
  \<^verbatim>\<open>atomic.AddInt32(&b.isTx, 1)\<close> stores and returns the new value.
\<close>

definition begin_tx :: "string \<Rightarrow> state \<Rightarrow> state" where
  "begin_tx nm s =
     (case s of (b, w) \<Rightarrow>
        let b1 = b\<lparr>isTx := isTx b + 1\<rparr> in
        if isTx b1 = 1 then
          let b2 = (if initiator b1 \<noteq> [] then b1\<lparr>name := initiator b1 @ '':''\<rparr> else b1);
              b3 = b2\<lparr>name := name b2 @ nm\<rparr>
          in (b3, botLock (name b3) w)
        else (b1, w))"

text \<open>
  \<^verbatim>\<open>done\<close> (lines 62-67). The deferred \<^verbatim>\<open>close(b.taskIsDoneCh)\<close> runs after
  \<^verbatim>\<open>botUnlock\<close>; its argument is evaluated at the \<^verbatim>\<open>defer\<close> statement, and nothing
  in between changes the field.
\<close>

definition done_tx :: "state \<Rightarrow> unit outcome \<times> state" where
  "done_tx s =
     (case s of (b, w) \<Rightarrow>
        let b1 = b\<lparr>isTx := isTx b - 1\<rparr> in
        if isTx b1 = 0 then
          let ch = taskIsDoneCh b1;
              w1 = botUnlock (name b1) w;
              (r, w2) = close_chan ch w1
          in (r, (b1, w2))
        else (Returned (), (b1, w)))"

text \<open>\<^verbatim>\<open>BeginNamed\<close>, \<^verbatim>\<open>Begin\<close> and \<^verbatim>\<open>Done\<close> (lines 33-49).\<close>

definition BeginNamed :: "string \<Rightarrow> state \<Rightarrow> state" where
  "BeginNamed nm s = begin_tx (if nm = [] then ''Tx'' else nm) s"

definition Begin :: "state \<Rightarrow> state" where
  "Begin s = BeginNamed ''Tx'' s"

definition Done :: "state \<Rightarrow> unit outcome \<times> state" where
  "Done s = done_tx s"

text \<open>
  A function body that has deferred \<^verbatim>\<open>Done\<close>/\<^verbatim>\<open>done\<close>: the deferred call runs when
  the body has returned and when it has panicked; a panic of the deferred call is the
  panic the caller sees.
\<close>

definition defer_done :: "'r outcome \<times> state \<Rightarrow> 'r outcome \<times> state" where
  "defer_done body =
     (case body of (r, s) \<Rightarrow>
        case done_tx s of (d, s') \<Rightarrow>
          (case d of Panicked m \<Rightarrow> Panicked m | Returned u \<Rightarrow> r, s'))"

text \<open>
  \<^verbatim>\<open>Tx\<close> (lines 69-75). The callback receives the handle (\<^verbatim>\<open>tx\<close> is \<^verbatim>\<open>b\<close> itself)
  and returns an \<^verbatim>\<open>error\<close>, \<open>None\<close> for \<^verbatim>\<open>nil\<close>, or panics.
\<close>

definition Tx :: "(state \<Rightarrow> 'e option outcome \<times> state) \<Rightarrow> state \<Rightarrow> 'e option outcome \<times> state" where
  "Tx clb s = (let tx = Begin s in defer_done (clb tx))"

section \<open>The prioritized operations (prioritize.go, lines 77-704)\<close>

text \<open>
  Every operation of the handle from \<^verbatim>\<open>LoginWithBearerToken\<close> to
  \<^verbatim>\<open>OfferBuyMarketplace\<close> has one shape:
  \<^verbatim>\<open>b.begin(label); defer b.done(); return b.bot.method(args)\<close>.
  The bot's methods are defined elsewhere in the repository, so each operation takes
  the method it calls as a parameter: what the call does to the world and what it
  returns (or that it panics). A bot method has no access to the handle.
\<close>

definition prioritized :: "string \<Rightarrow> (world \<Rightarrow> 'r outcome \<times> world) \<Rightarrow> state \<Rightarrow> 'r outcome \<times> state" where
  "prioritized label botMethod s =
     (case begin_tx label s of (b, w) \<Rightarrow>
        case botMethod w of (r, w') \<Rightarrow> defer_done (r, (b, w')))"

definition Login :: "(world \<Rightarrow> 'e option outcome \<times> world) \<Rightarrow> state \<Rightarrow> 'e option outcome \<times> state" where
  "Login wrapLogin s = prioritized ''Login'' wrapLogin s"

definition Logout :: "(world \<Rightarrow> unit outcome \<times> world) \<Rightarrow> state \<Rightarrow> unit outcome \<times> state" where
  "Logout logout s = prioritized ''Logout'' logout s"

definition GetPageContent ::
  "('vals \<Rightarrow> world \<Rightarrow> 'r outcome \<times> world) \<Rightarrow> 'vals \<Rightarrow> state \<Rightarrow> 'r outcome \<times> state" where
  "GetPageContent getPageContent vals s = prioritized ''GetPageContent'' (getPageContent vals) s"

definition GetPlanets :: "(world \<Rightarrow> 'r outcome \<times> world) \<Rightarrow> state \<Rightarrow> 'r outcome \<times> state" where
  "GetPlanets getPlanets s = prioritized ''GetPlanets'' getPlanets s"

definition GetFleets ::
  "('opts \<Rightarrow> world \<Rightarrow> 'r outcome \<times> world) \<Rightarrow> 'opts \<Rightarrow> state \<Rightarrow> 'r outcome \<times> state" where
  "GetFleets getFleets opts s = prioritized ''GetFleets'' (getFleets opts) s"

definition GetFleetsFromEventList :: "(world \<Rightarrow> 'r outcome \<times> world) \<Rightarrow> state \<Rightarrow> 'r outcome \<times> state" where
  "GetFleetsFromEventList getFleetsFromEventList s = prioritized ''GetFleets'' getFleetsFromEventList s"

definition Build ::
  "('cid \<Rightarrow> 'oid \<Rightarrow> 'n \<Rightarrow> world \<Rightarrow> 'e option outcome \<times> world) \<Rightarrow> 'cid \<Rightarrow> 'oid \<Rightarrow> 'n \<Rightarrow>
   state \<Rightarrow> 'e option outcome \<times> state" where
  "Build build celestialID objID nbr s = prioritized ''Build'' (build celestialID objID nbr) s"

definition SendFleet ::
  "('cid \<Rightarrow> 'ships \<Rightarrow> 'speed \<Rightarrow> 'coord \<Rightarrow> 'mission \<Rightarrow> 'res \<Rightarrow> 'n \<Rightarrow> 'n \<Rightarrow> bool \<Rightarrow>
      world \<Rightarrow> 'r outcome \<times> world) \<Rightarrow>
   'cid \<Rightarrow> 'ships \<Rightarrow> 'speed \<Rightarrow> 'coord \<Rightarrow> 'mission \<Rightarrow> 'res \<Rightarrow> 'n \<Rightarrow> 'n \<Rightarrow>
   state \<Rightarrow> 'r outcome \<times> state" where
  "SendFleet sendFleet celestialID ships speed dest mission resources holdingTime unionID s =
     prioritized ''SendFleet''
       (sendFleet celestialID ships speed dest mission resources holdingTime unionID False) s"

definition Phalanx ::
  "('moon \<Rightarrow> 'coord \<Rightarrow> world \<Rightarrow> 'r outcome \<times> world) \<Rightarrow> 'moon \<Rightarrow> 'coord \<Rightarrow>
   state \<Rightarrow> 'r outcome \<times> state" where
  "Phalanx getPhalanx moonID coord s = prioritized ''Phalanx'' (getPhalanx moonID coord) s"

definition UnsafePhalanx ::
  "('moon \<Rightarrow> 'coord \<Rightarrow> world \<Rightarrow> 'r outcome \<times> world) \<Rightarrow> 'moon \<Rightarrow> 'coord \<Rightarrow>
   state \<Rightarrow> 'r outcome \<times> state" where
  "UnsafePhalanx getUnsafePhalanx moonID coord s =
     prioritized ''Phalanx'' (getUnsafePhalanx moonID coord) s"

section \<open>ReplaceHostname (extractor file, lines 17-28)\<close>

text \<open>
  A byte slice is a \<open>string\<close>: a list of 8-bit characters. The backslash is written by
  its code.
\<close>

definition backslash :: char where "backslash = CHR 0x5C"

text \<open>
  Of the bot, \<^verbatim>\<open>ReplaceHostname\<close> reads the result of the method \<^verbatim>\<open>ServerURL()\<close>,
  which is defined elsewhere in the repository, and the field \<^verbatim>\<open>apiNewHostname\<close>;
  both are fields of the model's record.
\<close>

record OGame =
  ServerURL :: string
  apiNewHostname :: string

text \<open>
  \<^verbatim>\<open>bytes.Index(s, sep)\<close> of the Go library: the index of the first occurrence of
  \<open>sep\<close> in \<open>s\<close>, \<open>None\<close> for -1.
\<close>

fun Index :: "string \<Rightarrow> string \<Rightarrow> nat option" where
  "Index [] sep = (if sep = [] then Some 0 else None)"
| "Index (c # cs) sep =
     (if prefix sep (c # cs) then Some 0 else map_option Suc (Index cs sep))"

text \<open>
  The size \<^verbatim>\<open>utf8.DecodeRune\<close> returns on a non-empty slice: the length of a
  well-formed UTF-8 sequence at its start, and 1 for anything else. The bounds are the
  library's table: lead bytes C2-DF take one continuation byte, E0-EF two, F0-F4 three;
  the first continuation byte is in 80-BF, but in A0-BF after E0, 80-9F after ED, 90-BF
  after F0 and 80-8F after F4.
\<close>

definition rune_width :: "string \<Rightarrow> nat" where
  "rune_width p =
     (let n = length p; p0 = (of_char (p ! 0) :: nat) in
      if p0 < 0x80 \<or> p0 < 0xC2 \<or> 0xF5 \<le> p0 then 1
      else
        let sz = (if p0 < 0xE0 then 2 else if p0 < 0xF0 then 3 else 4 :: nat);
            lo = (if p0 = 0xE0 then 0xA0 else if p0 = 0xF0 then 0x90 else 0x80 :: nat);
            hi = (if p0 = 0xED then 0x9F else if p0 = 0xF4 then 0x8F else 0xBF :: nat)
        in if n < sz then 1
           else if of_char (p ! 1) < lo \<or> hi < of_char (p ! 1) then 1
           else if sz \<le> 2 then 2
           else if (of_char (p ! 2) :: nat) < 0x80 \<or> (0xBF :: nat) < of_char (p ! 2) then 1
           else if sz \<le> 3 then 3
           else if (of_char (p ! 3) :: nat) < 0x80 \<or> (0xBF :: nat) < of_char (p ! 3) then 1
           else 4)"

text \<open>
  \<^verbatim>\<open>bytes.Replace(s, old, new, -1)\<close> for an empty \<open>old\<close>: \<open>new\<close> goes in front of
  the slice and after every rune. This is what follows the leading \<open>new\<close>.
\<close>

function insert_at_runes :: "string \<Rightarrow> string \<Rightarrow> string" where
  "insert_at_runes s new =
     (if s = [] then []
      else take (rune_width s) s @ new @ insert_at_runes (drop (rune_width s) s) new)"
  by pat_completeness auto
termination
proof (relation "measure (\<lambda>(s, new). length s)")
  show "wf (measure (\<lambda>(s, new). length s))" by simp
next
  fix s new :: string
  assume "s \<noteq> []"
  moreover have "0 < rune_width s"
    by (simp add: rune_width_def Let_def)
  ultimately show "((drop (rune_width s) s, new), (s, new)) \<in> measure (\<lambda>(s, new). length s)"
    by simp
qed

text \<open>
  \<^verbatim>\<open>bytes.Replace(s, old, new, -1)\<close> for a non-empty \<open>old\<close>: the library counts the
  occurrences by the same search and then, as often, copies the bytes up to the next
  occurrence, copies \<open>new\<close> and continues behind the occurrence; the rest is copied as
  it is.
\<close>

function replace_each :: "string \<Rightarrow> string \<Rightarrow> string \<Rightarrow> string" where
  "replace_each s old new =
     (if old = [] then s
      else case Index s old of
             None \<Rightarrow> s
           | Some j \<Rightarrow> take j s @ new @ replace_each (drop (j + length old) s) old new)"
  by pat_completeness auto
termination
proof (relation "measure (\<lambda>(s, old, new). length s)")
  show "wf (measure (\<lambda>(s, old, new). length s))" by simp
next
  fix s old new :: string and j
  assume old: "old \<noteq> []" and idx: "Index s old = Some j"
  have "Index s old = Some j \<Longrightarrow> j + length old \<le> length s"
  proof (induction s arbitrary: j)
    case Nil
    then show ?case by (simp split: if_splits)
  next
    case (Cons c cs)
    then show ?case
      by (auto dest: prefix_length_le split: if_splits)
  qed
  with idx have "j + length old \<le> length s" by simp
  with old show "((drop (j + length old) s, old, new), (s, old, new))
      \<in> measure (\<lambda>(s, old, new). length s)"
    by (cases old) auto
qed

declare replace_each.simps [simp del]
declare insert_at_runes.simps [simp del]

definition bytes_Replace :: "string \<Rightarrow> string \<Rightarrow> string \<Rightarrow> string" where
  "bytes_Replace s old new =
     (if old = [] then new @ insert_at_runes s new else replace_each s old new)"

text \<open>
  \<^verbatim>\<open>ReplaceHostname\<close>, statement by statement. The raw string \<^verbatim>\<open>\/\<close> is a backslash
  and a slash; the interpreted string with six backslashes and a slash is three
  backslashes and a slash.
\<close>

definition ReplaceHostname :: "OGame \<Rightarrow> string \<Rightarrow> string" where
  "ReplaceHostname bot' html =
     (let serverURLBytes = ServerURL bot';
          apiNewHostnameBytes = apiNewHostname bot';
          escapedServerURL = bytes_Replace serverURLBytes ''/'' [backslash, CHR ''/''];
          doubleEscapedServerURL =
            bytes_Replace serverURLBytes ''/'' [backslash, backslash, backslash, CHR ''/''];
          escapedAPINewHostname = bytes_Replace apiNewHostnameBytes ''/'' [backslash, CHR ''/''];
          doubleEscapedAPINewHostname =
            bytes_Replace apiNewHostnameBytes ''/'' [backslash, backslash, backslash, CHR ''/''];
          html1 = bytes_Replace html serverURLBytes apiNewHostnameBytes;
          html2 = bytes_Replace html1 escapedServerURL escapedAPINewHostname;
          html3 = bytes_Replace html2 doubleEscapedServerURL doubleEscapedAPINewHostname
      in html3)"

subsection \<open>Replacing every occurrence\<close>

text \<open>
  \<open>replaced old new s t\<close>: \<open>t\<close> is \<open>s\<close> with every occurrence of \<open>old\<close> replaced by
  \<open>new\<close> and every other byte unchanged, the occurrences taken from the left and not
  overlapping: \<open>s\<close> is cut into gaps and occurrences, each occurrence being the first
  one in what is left of \<open>s\<close>, and \<open>t\<close> has the same gaps with \<open>new\<close> between them.
\<close>

inductive replaced :: "string \<Rightarrow> string \<Rightarrow> string \<Rightarrow> string \<Rightarrow> bool" for old new where
  no_more: "\<not> sublist old s \<Longrightarrow> replaced old new s s"
| next_one: "\<not> sublist old (g @ butlast old) \<Longrightarrow> replaced old new s t \<Longrightarrow>
             replaced old new (g @ old @ s) (g @ new @ t)"

text \<open>The two escaped encodings of a string, in the words of C9.\<close>

definition json_escaped :: "string \<Rightarrow> string" where
  "json_escaped s = concat (map (\<lambda>c. if c = CHR ''/'' then [backslash, CHR ''/''] else [c]) s)"

definition double_escaped :: "string \<Rightarrow> string" where
  "double_escaped s =
     concat (map (\<lambda>c. if c = CHR ''/'' then [backslash, backslash, backslash, CHR ''/''] else [c]) s)"

text \<open>
  The words of C9 as a function: one pass over \<open>html\<close>; where the server URL stands
  in one of the three encodings, the new hostname is written in the same encoding, and
  every byte that is not part of such an occurrence is copied.
\<close>

fun replace_forms :: "(string \<times> string) list \<Rightarrow> string \<Rightarrow> string" where
  "replace_forms forms [] = []"
| "replace_forms forms (c # cs) =
     (case find (\<lambda>(old, new). old \<noteq> [] \<and> prefix old (c # cs)) forms of
        None \<Rightarrow> c # replace_forms forms cs
      | Some (old, new) \<Rightarrow> new @ replace_forms forms (drop (length old - 1) cs))"

definition spec_ReplaceHostname :: "OGame \<Rightarrow> string \<Rightarrow> string" where
  "spec_ReplaceHostname bot' html =
     replace_forms
       [(ServerURL bot', apiNewHostname bot'),
        (json_escaped (ServerURL bot'), json_escaped (apiNewHostname bot')),
        (double_escaped (ServerURL bot'), double_escaped (apiNewHostname bot'))] html"

section \<open>Concrete inputs\<close>

text \<open>
  A handle as a constructor would leave it (depth 0, no name, no initiator) with the
  open channel 0, and a world in which nothing has happened yet; a callback that does
  nothing and returns \<^verbatim>\<open>nil\<close>, one that returns an error, one that panics, and a
  bot method that returns a value.
\<close>

definition fresh_handle :: Prioritize where
  "fresh_handle = \<lparr>initiator = [], name = [], taskIsDoneCh = Some 0, isTx = 0\<rparr>"

definition fresh_world :: world where
  "fresh_world = \<lparr>closedChans = {}, trace = []\<rparr>"

definition return_nil :: "state \<Rightarrow> string option outcome \<times> state" where
  "return_nil s = (Returned None, s)"

definition return_error :: "state \<Rightarrow> string option outcome \<times> state" where
  "return_error s = (Returned (Some ''bad credentials''), s)"

definition panics :: "state \<Rightarrow> string option outcome \<times> state" where
  "panics s = (Panicked ''index out of range'', s)"

definition method_ok :: "world \<Rightarrow> nat outcome \<times> world" where
  "method_ok w = (Returned 7, w)"



definition reacquired :: state where
  "reacquired = Begin (snd (Done (Begin (fresh_handle, fresh_world))))"

text \<open>
  Two configurations for \<^verbatim>\<open>ReplaceHostname\<close>: a new hostname given as a bare host
  name, with a page that holds a cut-off escaped URL right in front of a plain one; and
  a local proxy, with a page that holds the URL in each of the three encodings.
\<close>

definition bare_host_config :: OGame where
  "bare_host_config = \<lparr>ServerURL = ''https://s1.com'', apiNewHostname = ''my.net''\<rparr>"

definition cut_escaped_then_plain :: string where
  "cut_escaped_then_plain =
     ''https:'' @ [backslash, CHR ''/'', backslash, CHR ''/''] @ ''s1.co'' @ ''https://s1.com''"

definition local_proxy_config :: OGame where
  "local_proxy_config = \<lparr>ServerURL = ''https://s1.com'', apiNewHostname = ''http://me:80''\<rparr>"

definition page_three_forms :: string where
  "page_three_forms =
     ''a=https://s1.com/x b=https:'' @ [backslash, CHR ''/'', backslash, CHR ''/''] @ ''s1.com c=https:''
       @ [backslash, backslash, backslash, CHR ''/'', backslash, backslash, backslash, CHR ''/'']
       @ ''s1.com''"

section \<open>Properties\<close>

text \<open>
  C7. The priority constants are Low = 1, Normal = 2, Important = 3 and Critical = 4,
  strictly increasing in this order.
\<close>

theorem priorities_values:
  "Low = 1 \<and> Normal = 2 \<and> Important = 3 \<and> Critical = 4 \<and>
   Low < Normal \<and> Normal < Important \<and> Important < Critical"
  by (simp add: Low_def Normal_def Important_def Critical_def)

subsection \<open>Begin and Done, case by case\<close>

lemma begin_tx_outer:
  "isTx b = 0 \<Longrightarrow>
   begin_tx nm (b, w) =
     (b\<lparr>isTx := 1, name := (if initiator b = [] then name b else initiator b @ '':'') @ nm\<rparr>,
      w\<lparr>trace := trace w @ [BotLock ((if initiator b = [] then name b else initiator b @ '':'') @ nm)]\<rparr>)"
  by (simp add: begin_tx_def botLock_def Let_def)

lemma begin_tx_nested:
  "isTx b \<noteq> 0 \<Longrightarrow> begin_tx nm (b, w) = (b\<lparr>isTx := isTx b + 1\<rparr>, w)"
  by (simp add: begin_tx_def Let_def)

lemma done_tx_nested:
  "isTx b \<noteq> 1 \<Longrightarrow> done_tx (b, w) = (Returned (), (b\<lparr>isTx := isTx b - 1\<rparr>, w))"
  by (simp add: done_tx_def Let_def)

lemma done_tx_last:
  "isTx b = 1 \<Longrightarrow>
   done_tx (b, w) =
     (fst (close_chan (taskIsDoneCh b) (botUnlock (name b) w)),
      (b\<lparr>isTx := 0\<rparr>, snd (close_chan (taskIsDoneCh b) (botUnlock (name b) w))))"
  by (simp add: done_tx_def Let_def split_def)

lemma defer_done_nested:
  "isTx b \<noteq> 1 \<Longrightarrow> defer_done (r, (b, w)) = (r, (b\<lparr>isTx := isTx b - 1\<rparr>, w))"
  by (simp add: defer_done_def done_tx_nested)

lemma defer_done_last:
  "isTx b = 1 \<Longrightarrow>
   defer_done (r, (b, w)) =
     (case taskIsDoneCh b of
        None \<Rightarrow> (Panicked ''close of nil channel'',
                  (b\<lparr>isTx := 0\<rparr>, w\<lparr>trace := trace w @ [BotUnlock (name b)]\<rparr>))
      | Some c \<Rightarrow>
          if c \<in> closedChans w
          then (Panicked ''close of closed channel'',
                (b\<lparr>isTx := 0\<rparr>, w\<lparr>trace := trace w @ [BotUnlock (name b)]\<rparr>))
          else (r, (b\<lparr>isTx := 0\<rparr>,
                    w\<lparr>closedChans := insert c (closedChans w),
                      trace := trace w @ [BotUnlock (name b), CloseChan c]\<rparr>)))"
  by (simp add: defer_done_def done_tx_last close_chan_def botUnlock_def split: option.split)

lemma prioritized_outer:
  "isTx b = 0 \<Longrightarrow>
   prioritized label botMethod (b, w) =
     defer_done
       (case botMethod (botLock ((if initiator b = [] then name b else initiator b @ '':'') @ label) w) of
          (rm, wm) \<Rightarrow>
            (rm, (b\<lparr>isTx := 1,
                     name := (if initiator b = [] then name b else initiator b @ '':'') @ label\<rparr>, wm)))"
  by (simp add: prioritized_def begin_tx_outer botLock_def split_def)

lemma prioritized_nested:
  "isTx b \<noteq> 0 \<Longrightarrow>
   prioritized label botMethod (b, w) = (case botMethod w of (rm, wm) \<Rightarrow> (rm, (b, wm)))"
  by (simp add: prioritized_def begin_tx_nested defer_done_nested split_def)

lemma prioritized_depth: "isTx (fst (snd (prioritized label botMethod (b, w)))) = isTx b"
proof (cases "isTx b = 0")
  case True
  then show ?thesis
    by (simp add: prioritized_outer defer_done_last split_def split: option.split)
next
  case False
  then show ?thesis
    by (simp add: prioritized_nested split_def)
qed

text \<open>The definitions a concrete run unfolds.\<close>

lemmas model_defs = fresh_handle_def fresh_world_def return_nil_def return_error_def panics_def
  method_ok_def
  Let_def split_def Begin_def BeginNamed_def Done_def Tx_def SetInitiator_def begin_tx_def done_tx_def
  defer_done_def prioritized_def botLock_def botUnlock_def close_chan_def




text \<open>
  C3, as stated, fails. In a second transaction on one handle the depth is 1 and the
  handle's channel has been closed by the first transaction. \<^verbatim>\<open>Done\<close> takes the
  counter to 0 and calls \<^verbatim>\<open>botUnlock\<close>, but then it panics: it fulfils no signal (no
  channel is closed by it, the set of closed channels is what it was).
\<close>

theorem Done_reaches_zero_without_fulfilling:
  "isTx (fst reacquired) = 1 \<and>
   taskIsDoneCh (fst reacquired) = Some 0 \<and>
   0 \<in> closedChans (snd reacquired) \<and>
   isTx (fst (snd (Done reacquired))) = 0 \<and>
   fst (Done reacquired) = Panicked ''close of closed channel'' \<and>
   closedChans (snd (snd (Done reacquired))) = closedChans (snd reacquired) \<and>
   trace (snd (snd (Done reacquired))) = trace (snd reacquired) @ [BotUnlock ''TxTx'']"
  by (simp add: reacquired_def model_defs)

text \<open>
  C3, amended. \<^verbatim>\<open>Done\<close> decrements the depth counter and changes nothing else in the
  handle. Exactly when the counter reaches 0 it calls \<^verbatim>\<open>botUnlock\<close> with the handle's
  name, whatever the state of the channel, and then closes the handle's channel: an open
  channel becomes closed and \<^verbatim>\<open>Done\<close> returns; on a channel that is nil or already
  closed the \<^verbatim>\<open>close\<close> panics, after the release, and no channel changes. When the
  counter does not reach 0 the world is untouched and \<^verbatim>\<open>Done\<close> returns. There is no
  error value in the result.
\<close>

theorem Done_release:
  "case Done (b, w) of (r, (b', w')) \<Rightarrow>
     b' = b\<lparr>isTx := isTx b - 1\<rparr>
   \<and> (isTx b - 1 = 0 \<longrightarrow>
        (case taskIsDoneCh b of
           None \<Rightarrow> w' = w\<lparr>trace := trace w @ [BotUnlock (name b)]\<rparr>
                  \<and> r = Panicked ''close of nil channel''
         | Some c \<Rightarrow>
             if c \<in> closedChans w
             then w' = w\<lparr>trace := trace w @ [BotUnlock (name b)]\<rparr>
                  \<and> r = Panicked ''close of closed channel''
             else w' = w\<lparr>closedChans := insert c (closedChans w),
                         trace := trace w @ [BotUnlock (name b), CloseChan c]\<rparr>
                  \<and> r = Returned ()))
   \<and> (isTx b - 1 \<noteq> 0 \<longrightarrow> w' = w \<and> r = Returned ())"
  by (simp add: Done_def done_tx_def Let_def close_chan_def botUnlock_def split: option.split)

theorem Done_release_witness:
  "isTx ((fst (Begin (fresh_handle, fresh_world)))) - 1 = 0 \<and>
   Done (Begin (fresh_handle, fresh_world)) =
     (Returned (), (fresh_handle\<lparr>name := ''Tx''\<rparr>,
        \<lparr>closedChans = {0}, trace = [BotLock ''Tx'', BotUnlock ''Tx'', CloseChan 0]\<rparr>)) \<and>
   isTx (fst (Begin (Begin (fresh_handle, fresh_world)))) - 1 \<noteq> 0 \<and>
   Done (Begin (Begin (fresh_handle, fresh_world))) =
     (Returned (), Begin (fresh_handle, fresh_world))"
  using Done_release [of "fst (Begin (fresh_handle, fresh_world))" "snd (Begin (fresh_handle, fresh_world))"]
    Done_release [of "fst (Begin (Begin (fresh_handle, fresh_world)))" "snd (Begin (Begin (fresh_handle, fresh_world)))"]
  by (simp add: fresh_handle_def fresh_world_def Let_def split_def Begin_def BeginNamed_def
      Done_def begin_tx_def done_tx_def botLock_def botUnlock_def close_chan_def)

text \<open>
  C6. On a handle at depth 0 with no name composed yet, \<^verbatim>\<open>BeginNamed\<close> passes to
  \<^verbatim>\<open>botLock\<close> the label \<open>initiator:name\<close> when the initiator is not empty and
  \<open>name\<close> otherwise, where an empty name stands for \<open>Tx\<close>; \<^verbatim>\<open>Begin\<close> is
  \<^verbatim>\<open>BeginNamed\<close> with the empty name.
\<close>

theorem display_name:
  assumes "isTx b = 0" and "name b = []"
  shows "let nm' = (if nm = [] then ''Tx'' else nm);
             label = (if i = [] then nm' else i @ '':'' @ nm')
         in trace (snd (BeginNamed nm (SetInitiator i (b, w)))) = trace w @ [BotLock label]
          \<and> name (fst (BeginNamed nm (SetInitiator i (b, w)))) = label
          \<and> trace (snd (BeginNamed nm (b, w))) =
              trace w @ [BotLock (if initiator b = [] then nm' else initiator b @ '':'' @ nm')]
          \<and> Begin (b, w) = BeginNamed [] (b, w)
          \<and> trace (snd (Begin (SetInitiator i (b, w)))) =
              trace w @ [BotLock (if i = [] then ''Tx'' else i @ '':Tx'')]"
  using assms
  by (simp add: Begin_def BeginNamed_def SetInitiator_def begin_tx_outer Let_def)

theorem display_name_witness:
  "isTx fresh_handle = 0 \<and> name fresh_handle = [] \<and>
   trace (snd (BeginNamed [] (SetInitiator ''farm'' (fresh_handle, fresh_world)))) = [BotLock ''farm:Tx''] \<and>
   trace (snd (BeginNamed ''Spy'' (SetInitiator ''farm'' (fresh_handle, fresh_world)))) = [BotLock ''farm:Spy''] \<and>
   trace (snd (BeginNamed ''Spy'' (fresh_handle, fresh_world))) = [BotLock ''Spy''] \<and>
   trace (snd (Begin (fresh_handle, fresh_world))) = [BotLock ''Tx'']"
  using display_name [of fresh_handle "[]" "''farm''" fresh_world]
    display_name [of fresh_handle "''Spy''" "''farm''" fresh_world]
  by (simp add: fresh_handle_def fresh_world_def Let_def split_def Begin_def BeginNamed_def
      SetInitiator_def begin_tx_def botLock_def)

text \<open>
  C4. An operation of the shape \<^verbatim>\<open>b.begin(label); defer b.done(); return b.bot.method()\<close>
  leaves the depth as it found it, whatever the method does (return or panic) and
  whether or not the closing \<^verbatim>\<open>done\<close> panics; the depth is one higher while the method
  runs. From depth 0 the method runs in the world in which \<^verbatim>\<open>botLock\<close> has just been
  called, and \<^verbatim>\<open>botUnlock\<close> and the \<^verbatim>\<open>close\<close> come after everything the method
  did; from any other depth only the method touches the world. \<^verbatim>\<open>Login\<close>,
  \<^verbatim>\<open>Logout\<close>, \<^verbatim>\<open>GetPlanets\<close>, \<^verbatim>\<open>Build\<close>, \<^verbatim>\<open>SendFleet\<close> and \<^verbatim>\<open>GetPageContent\<close>
  are such operations.
\<close>

theorem operations_balanced:
  "(case prioritized label botMethod (b, w) of (r, (b', w')) \<Rightarrow>
      isTx b' = isTx b
    \<and> isTx (fst (begin_tx label (b, w))) = isTx b + 1
    \<and> (isTx b = 0 \<longrightarrow>
         (let L = (if initiator b = [] then name b else initiator b @ '':'') @ label in
          case botMethod (w\<lparr>trace := trace w @ [BotLock L]\<rparr>) of (rm, wm) \<Rightarrow>
            b' = b\<lparr>name := L\<rparr>
          \<and> (case taskIsDoneCh b of
                None \<Rightarrow> w' = wm\<lparr>trace := trace wm @ [BotUnlock L]\<rparr>
                       \<and> r = Panicked ''close of nil channel''
              | Some c \<Rightarrow>
                  if c \<in> closedChans wm
                  then w' = wm\<lparr>trace := trace wm @ [BotUnlock L]\<rparr>
                       \<and> r = Panicked ''close of closed channel''
                  else w' = wm\<lparr>closedChans := insert c (closedChans wm),
                               trace := trace wm @ [BotUnlock L, CloseChan c]\<rparr>
                       \<and> r = rm)))
    \<and> (isTx b \<noteq> 0 \<longrightarrow> (r, (b', w')) = (case botMethod w of (rm, wm) \<Rightarrow> (rm, (b, wm)))))
   \<and> isTx (fst (snd (Login wrapLogin (b, w)))) = isTx b
   \<and> isTx (fst (snd (Logout logout (b, w)))) = isTx b
   \<and> isTx (fst (snd (GetPlanets getPlanets (b, w)))) = isTx b
   \<and> isTx (fst (snd (Build build celestialID objID nbr (b, w)))) = isTx b
   \<and> isTx (fst (snd (SendFleet sendFleet celestialID ships speed dest mission resources
                        holdingTime unionID (b, w)))) = isTx b
   \<and> isTx (fst (snd (GetPageContent getPageContent vals (b, w)))) = isTx b
   \<and> Login wrapLogin (b, w) = prioritized ''Login'' wrapLogin (b, w)
   \<and> Logout logout (b, w) = prioritized ''Logout'' logout (b, w)
   \<and> GetPlanets getPlanets (b, w) = prioritized ''GetPlanets'' getPlanets (b, w)
   \<and> Build build celestialID objID nbr (b, w) =
       prioritized ''Build'' (build celestialID objID nbr) (b, w)
   \<and> SendFleet sendFleet celestialID ships speed dest mission resources holdingTime unionID (b, w) =
       prioritized ''SendFleet''
         (sendFleet celestialID ships speed dest mission resources holdingTime unionID False) (b, w)
   \<and> GetPageContent getPageContent vals (b, w) =
       prioritized ''GetPageContent'' (getPageContent vals) (b, w)"
proof -
  have depth: "isTx (fst (begin_tx label (b, w))) = isTx b + 1"
    by (simp add: begin_tx_def Let_def)
  have outer: "isTx b = 0 \<Longrightarrow> ?thesis"
    by (simp add: Login_def Logout_def GetPlanets_def Build_def SendFleet_def GetPageContent_def
        prioritized_depth depth)
      (simp add: prioritized_outer defer_done_last botLock_def split_def Let_def split: option.split)
  have nested: "isTx b \<noteq> 0 \<Longrightarrow> ?thesis"
    by (simp add: Login_def Logout_def GetPlanets_def Build_def SendFleet_def GetPageContent_def
        prioritized_depth depth)
      (simp add: prioritized_nested split_def)
  show ?thesis
  proof (cases "isTx b = 0")
    case True
    then show ?thesis by (rule outer)
  next
    case False
    then show ?thesis by (rule nested)
  qed
qed

theorem operations_balanced_witness:
  "isTx fresh_handle = 0 \<and>
   GetPlanets method_ok (fresh_handle, fresh_world) =
     (Returned 7, (fresh_handle\<lparr>name := ''GetPlanets''\<rparr>,
        \<lparr>closedChans = {0},
         trace = [BotLock ''GetPlanets'', BotUnlock ''GetPlanets'', CloseChan 0]\<rparr>)) \<and>
   isTx (fst (Begin (fresh_handle, fresh_world))) \<noteq> 0 \<and>
   GetPlanets method_ok (Begin (fresh_handle, fresh_world)) =
     (Returned 7, Begin (fresh_handle, fresh_world))"
  using operations_balanced [where label = "''GetPlanets''" and botMethod = method_ok
      and b = fresh_handle and w = fresh_world]
    operations_balanced [where label = "''GetPlanets''" and botMethod = method_ok
      and b = "fst (Begin (fresh_handle, fresh_world))"
      and w = "snd (Begin (fresh_handle, fresh_world))"]
  by (simp add: model_defs GetPlanets_def)

text \<open>
  C10. \<^verbatim>\<open>UnsafePhalanx\<close> begins under the label \<open>Phalanx\<close> and
  \<^verbatim>\<open>GetFleetsFromEventList\<close> under the label \<open>GetFleets\<close>: given the same behaviour of
  the bot method, \<^verbatim>\<open>UnsafePhalanx\<close> does what \<^verbatim>\<open>Phalanx\<close> does and
  \<^verbatim>\<open>GetFleetsFromEventList\<close> what \<^verbatim>\<open>GetFleets\<close> does, label included.
\<close>

theorem label_aliasing:
  "UnsafePhalanx m moonID coord s = Phalanx m moonID coord s
 \<and> GetFleetsFromEventList m' s = GetFleets (\<lambda>opts. m') opts s
 \<and> (isTx b = 0 \<longrightarrow>
      (let pre = (if initiator b = [] then name b else initiator b @ '':'') in
         UnsafePhalanx m moonID coord (b, w) =
           defer_done (case m moonID coord (botLock (pre @ ''Phalanx'') w) of
                         (rm, wm) \<Rightarrow> (rm, (b\<lparr>isTx := 1, name := pre @ ''Phalanx''\<rparr>, wm)))
       \<and> GetFleetsFromEventList m' (b, w) =
           defer_done (case m' (botLock (pre @ ''GetFleets'') w) of
                         (rm, wm) \<Rightarrow> (rm, (b\<lparr>isTx := 1, name := pre @ ''GetFleets''\<rparr>, wm)))))"
  by (simp add: UnsafePhalanx_def Phalanx_def GetFleetsFromEventList_def GetFleets_def
      prioritized_outer Let_def)

theorem label_aliasing_witness:
  "isTx fresh_handle = 0 \<and>
   trace (snd (snd (UnsafePhalanx (\<lambda>moon coord. method_ok) (1::nat) (2::nat) (fresh_handle, fresh_world)))) =
     [BotLock ''Phalanx'', BotUnlock ''Phalanx'', CloseChan 0] \<and>
   trace (snd (snd (GetFleetsFromEventList method_ok (fresh_handle, fresh_world)))) =
     [BotLock ''GetFleets'', BotUnlock ''GetFleets'', CloseChan 0]"
  using label_aliasing [where m = "\<lambda>moon coord. method_ok" and moonID = "1::nat"
      and coord = "2::nat" and m' = method_ok and b = fresh_handle and w = fresh_world]
  by (simp add: model_defs UnsafePhalanx_def GetFleetsFromEventList_def Phalanx_def GetFleets_def)

text \<open>
  C2, as stated, fails: \<^verbatim>\<open>Tx\<close> twice on one handle, with a callback that does nothing
  and returns \<^verbatim>\<open>nil\<close>. The first \<^verbatim>\<open>Tx\<close> closes the handle's channel; in the second
  the callback returns \<^verbatim>\<open>nil\<close> again, but the deferred \<^verbatim>\<open>Done\<close> closes the closed
  channel and \<^verbatim>\<open>Tx\<close> panics.
\<close>

theorem Tx_twice_panics:
  "fst (return_nil (Begin (snd (Tx return_nil (fresh_handle, fresh_world))))) = Returned None \<and>
   fst (Tx return_nil (snd (Tx return_nil (fresh_handle, fresh_world)))) =
     Panicked ''close of closed channel''"
  by (simp add: model_defs)

text \<open>
  C2, amended. For every callback and every state, \<^verbatim>\<open>Tx\<close> runs the callback on the
  state \<^verbatim>\<open>Begin\<close> leaves and then \<^verbatim>\<open>Done\<close> on the state the callback leaves, whether
  the callback returned \<^verbatim>\<open>nil\<close>, returned an error or panicked. Its outcome is the
  callback's outcome whenever that \<^verbatim>\<open>Done\<close> returns, and the panic of \<^verbatim>\<open>Done\<close>
  otherwise; \<^verbatim>\<open>Done\<close> returns unless it brings the depth to 0 on a channel that is nil
  or already closed.
\<close>

theorem Tx_outcome:
  "case clb (Begin s) of (r, s2) \<Rightarrow>
   case Tx clb s of (r', s3) \<Rightarrow>
     s3 = snd (Done s2)
   \<and> isTx (fst s3) = isTx (fst s2) - 1
   \<and> (fst (Done s2) = Returned () \<longrightarrow> r' = r)
   \<and> (\<forall>m. fst (Done s2) = Panicked m \<longrightarrow> r' = Panicked m)
   \<and> (fst (Done s2) = Returned () \<longleftrightarrow>
        isTx (fst s2) \<noteq> 1 \<or> (\<exists>c. taskIsDoneCh (fst s2) = Some c \<and> c \<notin> closedChans (snd s2)))"
  by (cases "clb (Begin s)"; cases "snd (clb (Begin s))"; cases "isTx (fst (snd (clb (Begin s)))) = 1")
     (auto simp add: Tx_def Done_def defer_done_def done_tx_def Let_def close_chan_def botUnlock_def split_def
       split: option.splits outcome.splits)

theorem Tx_outcome_witness:
  "fst (Done (snd (return_error (Begin (fresh_handle, fresh_world))))) = Returned () \<and>
   Tx return_error (fresh_handle, fresh_world) =
     (Returned (Some ''bad credentials''),
      (fresh_handle\<lparr>name := ''Tx''\<rparr>,
       \<lparr>closedChans = {0}, trace = [BotLock ''Tx'', BotUnlock ''Tx'', CloseChan 0]\<rparr>)) \<and>
   fst (Done (snd (panics (Begin (fresh_handle, fresh_world))))) = Returned () \<and>
   Tx panics (fresh_handle, fresh_world) =
     (Panicked ''index out of range'',
      (fresh_handle\<lparr>name := ''Tx''\<rparr>,
       \<lparr>closedChans = {0}, trace = [BotLock ''Tx'', BotUnlock ''Tx'', CloseChan 0]\<rparr>)) \<and>
   fst (Done (snd (return_nil (Begin (fresh_handle, fresh_world))))) = Returned () \<and>
   fst (Tx return_nil (fresh_handle, fresh_world)) = Returned None"
  using Tx_outcome [of return_error "(fresh_handle, fresh_world)"]
    Tx_outcome [of panics "(fresh_handle, fresh_world)"]
    Tx_outcome [of return_nil "(fresh_handle, fresh_world)"]
  by (simp add: model_defs)

text \<open>
  C5, as stated, fails: after \<^verbatim>\<open>Begin(); Done()\<close> a second \<^verbatim>\<open>Begin\<close> takes the depth
  from 0 to 1 again, and the handle's channel is still the channel of the first
  acquisition, which is closed. Nothing fresh has been created, and the \<^verbatim>\<open>Done\<close> that
  follows panics instead of fulfilling a signal.
\<close>

theorem second_acquisition_reuses_signal:
  "isTx (fst (snd (Done (Begin (fresh_handle, fresh_world))))) = 0 \<and>
   isTx (fst (Begin (snd (Done (Begin (fresh_handle, fresh_world)))))) = 1 \<and>
   taskIsDoneCh (fst (Begin (snd (Done (Begin (fresh_handle, fresh_world)))))) =
     taskIsDoneCh fresh_handle \<and>
   taskIsDoneCh (fst (Begin (snd (Done (Begin (fresh_handle, fresh_world)))))) = Some 0 \<and>
   0 \<in> closedChans (snd (Begin (snd (Done (Begin (fresh_handle, fresh_world)))))) \<and>
   fst (Done (Begin (snd (Done (Begin (fresh_handle, fresh_world)))))) =
     Panicked ''close of closed channel''"
  by (simp add: model_defs)

text \<open>
  C5, amended. No \<^verbatim>\<open>Begin\<close> creates, replaces or changes a channel: the handle keeps the
  channel it has, and \<^verbatim>\<open>Done\<close> keeps it too. When \<^verbatim>\<open>Done\<close> takes the depth from 1 to 0
  and that channel is open, it closes it, after the release, and returns; when the channel
  has been closed before, \<^verbatim>\<open>Done\<close> panics after the release and no channel changes. A
  \<^verbatim>\<open>Done\<close> that does not reach depth 0 closes nothing. So the one channel of a handle
  is closed at most once.
\<close>

theorem signal_of_handle:
  "taskIsDoneCh (fst (begin_tx nm (b, w))) = taskIsDoneCh b
 \<and> closedChans (snd (begin_tx nm (b, w))) = closedChans w
 \<and> taskIsDoneCh (fst (BeginNamed nm (b, w))) = taskIsDoneCh b
 \<and> closedChans (snd (BeginNamed nm (b, w))) = closedChans w
 \<and> taskIsDoneCh (fst (Begin (b, w))) = taskIsDoneCh b
 \<and> closedChans (snd (Begin (b, w))) = closedChans w
 \<and> taskIsDoneCh (fst (snd (Done (b, w)))) = taskIsDoneCh b
 \<and> (isTx b = 1 \<longrightarrow>
      (\<forall>c. taskIsDoneCh b = Some c \<longrightarrow>
         (c \<notin> closedChans w \<longrightarrow>
            fst (Done (b, w)) = Returned () \<and>
            closedChans (snd (snd (Done (b, w)))) = insert c (closedChans w) \<and>
            trace (snd (snd (Done (b, w)))) = trace w @ [BotUnlock (name b), CloseChan c])
       \<and> (c \<in> closedChans w \<longrightarrow>
            fst (Done (b, w)) = Panicked ''close of closed channel'' \<and>
            closedChans (snd (snd (Done (b, w)))) = closedChans w \<and>
            trace (snd (snd (Done (b, w)))) = trace w @ [BotUnlock (name b)])))
 \<and> (isTx b \<noteq> 1 \<longrightarrow> closedChans (snd (snd (Done (b, w)))) = closedChans w)"
  by (simp add: Begin_def BeginNamed_def Done_def begin_tx_def done_tx_def Let_def split_def
      botLock_def botUnlock_def close_chan_def)

theorem signal_of_handle_witness:
  "isTx (fst (Begin (fresh_handle, fresh_world))) = 1 \<and>
   taskIsDoneCh (fst (Begin (fresh_handle, fresh_world))) = Some 0 \<and>
   0 \<notin> closedChans (snd (Begin (fresh_handle, fresh_world))) \<and>
   closedChans (snd (snd (Done (Begin (fresh_handle, fresh_world))))) = {0} \<and>
   0 \<in> closedChans (snd (Begin (snd (Done (Begin (fresh_handle, fresh_world)))))) \<and>
   closedChans (snd (snd (Done (Begin (snd (Done (Begin (fresh_handle, fresh_world)))))))) = {0}"
  using signal_of_handle [of "''Tx''" "fst (Begin (fresh_handle, fresh_world))"
      "snd (Begin (fresh_handle, fresh_world))"]
    signal_of_handle [of "''Tx''" "fst (Begin (snd (Done (Begin (fresh_handle, fresh_world)))))"
      "snd (Begin (snd (Done (Begin (fresh_handle, fresh_world)))))"]
  by (simp add: model_defs)

subsection \<open>bytes.Index and one pass of bytes.Replace\<close>

lemma Index_None: "Index s sep = None \<Longrightarrow> \<not> sublist sep s"
proof (induction s)
  case Nil
  then show ?case by (simp split: if_splits)
next
  case (Cons c cs)
  then show ?case by (auto simp: sublist_Cons_right split: if_splits)
qed

lemma Index_Some_split:
  "Index s sep = Some j \<Longrightarrow> s = take j s @ sep @ drop (j + length sep) s"
proof (induction s arbitrary: j)
  case Nil
  then show ?case by (simp split: if_splits)
next
  case (Cons c cs)
  show ?case
  proof (cases "prefix sep (c # cs)")
    case True
    with Cons.prems have "j = 0" by simp
    with True show ?thesis by (auto simp: prefix_def)
  next
    case False
    with Cons.prems obtain k where k: "Index cs sep = Some k" "j = Suc k" by auto
    from Cons.IH [OF k(1)] k(2) show ?thesis by simp
  qed
qed

lemma sublist_gap_butlast:
  assumes "sep \<noteq> []" and "sublist sep (c # g @ butlast sep)"
  shows "prefix sep (c # g @ sep @ r) \<or> sublist sep (g @ butlast sep)"
proof -
  from assms(2) have "prefix sep (c # g @ butlast sep) \<or> sublist sep (g @ butlast sep)"
    by (simp add: sublist_Cons_right)
  moreover have "prefix sep (c # g @ sep @ r)" if "prefix sep (c # g @ butlast sep)"
  proof -
    have "prefix (c # g @ butlast sep) (c # g @ sep @ r)"
      using assms(1) by (metis append_butlast_last_id append.assoc prefix_def append_Cons)
    with that show ?thesis by (rule prefix_order.trans)
  qed
  ultimately show ?thesis by blast
qed

lemma Index_Some_first:
  "sep \<noteq> [] \<Longrightarrow> Index s sep = Some j \<Longrightarrow> \<not> sublist sep (take j s @ butlast sep)"
proof (induction s arbitrary: j)
  case Nil
  then show ?case by (simp split: if_splits)
next
  case (Cons c cs)
  show ?case
  proof (cases "prefix sep (c # cs)")
    case True
    with Cons.prems have "j = 0" by simp
    moreover have "\<not> sublist sep (butlast sep)"
    proof
      assume "sublist sep (butlast sep)"
      then have "length sep \<le> length (butlast sep)" by (rule sublist_length_le)
      with Cons.prems(1) show False by (cases sep rule: rev_cases) simp_all
    qed
    ultimately show ?thesis by simp
  next
    case False
    with Cons.prems obtain k where k: "Index cs sep = Some k" "j = Suc k" by auto
    have split: "cs = take k cs @ sep @ drop (k + length sep) cs"
      using k(1) by (rule Index_Some_split)
    have ih: "\<not> sublist sep (take k cs @ butlast sep)"
      using Cons.IH [OF Cons.prems(1) k(1)] .
    show ?thesis
    proof
      assume "sublist sep (take j (c # cs) @ butlast sep)"
      then have "sublist sep (c # take k cs @ butlast sep)" using k(2) by simp
      from sublist_gap_butlast [OF Cons.prems(1) this, of "drop (k + length sep) cs"]
      have "prefix sep (c # cs) \<or> sublist sep (take k cs @ butlast sep)"
        using split by simp
      with False ih show False by blast
    qed
  qed
qed

lemma replace_each_replaced:
  "old \<noteq> [] \<Longrightarrow> replaced old new s (replace_each s old new)"
proof (induction s old new rule: replace_each.induct)
  case (1 s old new)
  show ?case
  proof (cases "Index s old")
    case None
    then have "\<not> sublist old s" by (rule Index_None)
    then have "replaced old new s s" by (rule no_more)
    with None "1.prems" show ?thesis by (simp add: replace_each.simps [of s])
  next
    case (Some j)
    let ?rest = "drop (j + length old) s"
    have first: "\<not> sublist old (take j s @ butlast old)"
      using "1.prems" Some by (rule Index_Some_first)
    have "replaced old new ?rest (replace_each ?rest old new)"
      using "1.IH" [OF "1.prems" Some "1.prems"] .
    with first have "replaced old new (take j s @ old @ ?rest)
        (take j s @ new @ replace_each ?rest old new)"
      by (rule next_one)
    moreover have "s = take j s @ old @ ?rest" using Some by (rule Index_Some_split)
    ultimately show ?thesis using Some "1.prems" by (simp add: replace_each.simps [of s])
  qed
qed

lemma prefix_append_short:
  "prefix xs (ys @ zs) \<Longrightarrow> length xs \<le> length ys \<Longrightarrow> prefix xs ys"
  by (auto simp: prefix_append)

lemma Index_not_sublist: "sep \<noteq> [] \<Longrightarrow> \<not> sublist sep s \<Longrightarrow> Index s sep = None"
  by (induction s) (auto simp: sublist_Cons_right)

lemma Index_first:
  "sep \<noteq> [] \<Longrightarrow> \<not> sublist sep (g @ butlast sep) \<Longrightarrow> Index (g @ sep @ r) sep = Some (length g)"
proof (induction g)
  case Nil
  then show ?case by (cases sep) simp_all
next
  case (Cons c g)
  have no_prefix: "\<not> prefix sep (c # g @ sep @ r)"
  proof
    assume p: "prefix sep (c # g @ sep @ r)"
    have "c # g @ sep @ r = (c # g @ butlast sep) @ (last sep # r)"
      using Cons.prems(1) by simp
    with p have "prefix sep ((c # g @ butlast sep) @ (last sep # r))" by simp
    moreover have "length sep \<le> length (c # g @ butlast sep)" by simp
    ultimately have "prefix sep (c # g @ butlast sep)" by (rule prefix_append_short)
    then have "sublist sep ((c # g) @ butlast sep)" by simp
    with Cons.prems(2) show False by simp
  qed
  have "\<not> sublist sep (g @ butlast sep)"
    using Cons.prems(2) by (simp add: sublist_Cons_right)
  with Cons.IH Cons.prems(1) have "Index (g @ sep @ r) sep = Some (length g)" by simp
  with no_prefix show ?case by simp
qed

lemma replaced_unique:
  "replaced old new s t \<Longrightarrow> old \<noteq> [] \<Longrightarrow> t = replace_each s old new"
proof (induction rule: replaced.induct)
  case (no_more s)
  then have "Index s old = None" by (simp add: Index_not_sublist)
  then show ?case by (simp add: replace_each.simps [of s])
next
  case (next_one g s t)
  then have "Index (g @ old @ s) old = Some (length g)" by (simp add: Index_first)
  with next_one show ?case by (simp add: replace_each.simps [of "g @ old @ s"])
qed

lemma replace_each_no_occurrence: "\<not> sublist old s \<Longrightarrow> replace_each s old new = s"
  by (cases "old = []") (simp_all add: replace_each.simps [of s] Index_not_sublist)

lemma replace_each_char_hit: "replace_each (x # cs) [x] new = new @ replace_each cs [x] new"
  by (simp add: replace_each.simps [of "x # cs"])

lemma replace_each_char_miss:
  "c \<noteq> x \<Longrightarrow> replace_each (c # cs) [x] new = c # replace_each cs [x] new"
  by (simp add: replace_each.simps [of "c # cs"] replace_each.simps [of cs] split: option.split)

lemma replace_each_char:
  "replace_each s [x] new = concat (map (\<lambda>c. if c = x then new else [c]) s)"
proof (induction s)
  case Nil
  then show ?case by (simp add: replace_each.simps [of "[]"])
next
  case (Cons c cs)
  then show ?case by (simp add: replace_each_char_hit replace_each_char_miss)
qed

lemma escaped_forms:
  "bytes_Replace s ''/'' [backslash, CHR ''/''] = json_escaped s"
  "bytes_Replace s ''/'' [backslash, backslash, backslash, CHR ''/''] = double_escaped s"
  by (simp_all add: bytes_Replace_def replace_each_char json_escaped_def double_escaped_def)

lemma escaped_nonempty:
  "s \<noteq> [] \<Longrightarrow> json_escaped s \<noteq> []"
  "s \<noteq> [] \<Longrightarrow> double_escaped s \<noteq> []"
  by (cases s; simp add: json_escaped_def double_escaped_def)+

lemma ReplaceHostname_passes:
  "ServerURL bot' \<noteq> [] \<Longrightarrow>
   ReplaceHostname bot' html =
     replace_each
       (replace_each (replace_each html (ServerURL bot') (apiNewHostname bot'))
          (json_escaped (ServerURL bot')) (json_escaped (apiNewHostname bot')))
       (double_escaped (ServerURL bot')) (double_escaped (apiNewHostname bot'))"
  by (simp add: ReplaceHostname_def Let_def escaped_forms)
     (simp add: bytes_Replace_def escaped_nonempty)

text \<open>The definitions a concrete run of \<^verbatim>\<open>ReplaceHostname\<close> unfolds.\<close>

lemmas replace_defs = ReplaceHostname_def spec_ReplaceHostname_def bytes_Replace_def
  json_escaped_def double_escaped_def backslash_def Let_def replace_each.simps sublist_code

text \<open>
  C9, as stated, fails. The server URL is \<open>https://s1.com\<close>, the new hostname
  \<open>my.net\<close>, and the page is the escaped URL without its last byte, followed by the
  plain URL. The page holds the URL once, in the plain encoding, so the result C9 states
  is the page with that occurrence replaced. The code's first pass produces exactly
  that; but the text it inserted completes the cut-off escaped URL in front of it, the
  second pass replaces that too, and bytes outside every occurrence are gone.
\<close>

theorem ReplaceHostname_rewrites_inserted_text:
  "sublist (ServerURL bare_host_config) cut_escaped_then_plain \<and>
   \<not> sublist (json_escaped (ServerURL bare_host_config)) cut_escaped_then_plain \<and>
   \<not> sublist (double_escaped (ServerURL bare_host_config)) cut_escaped_then_plain \<and>
   spec_ReplaceHostname bare_host_config cut_escaped_then_plain =
     ''https:'' @ [backslash, CHR ''/'', backslash, CHR ''/''] @ ''s1.co'' @ ''my.net'' \<and>
   ReplaceHostname bare_host_config cut_escaped_then_plain = ''my.nety.net'' \<and>
   ReplaceHostname bare_host_config cut_escaped_then_plain \<noteq>
     spec_ReplaceHostname bare_host_config cut_escaped_then_plain"
  by (simp add: bare_host_config_def cut_escaped_then_plain_def replace_defs)

text \<open>
  C9, amended. For a non-empty server URL, \<^verbatim>\<open>ReplaceHostname\<close> returns the result of
  three successive passes, and nothing else is such a result: the first pass replaces
  every occurrence of the server URL in \<open>html\<close> by the new hostname, the second every
  occurrence of the URL with each \<open>/\<close> escaped by one backslash in the output of the
  first, the third every occurrence of the URL with each \<open>/\<close> escaped by three
  backslashes in the output of the second, each by the new hostname in the same
  encoding; every pass takes the occurrences from the left, not overlapping, and
  leaves the other bytes of its input unchanged. A page in which the URL occurs in none
  of the three encodings is returned unchanged.
\<close>

theorem ReplaceHostname_successive:
  assumes "ServerURL bot' \<noteq> []"
  shows "(\<exists>h1 h2.
            replaced (ServerURL bot') (apiNewHostname bot') html h1
          \<and> replaced (json_escaped (ServerURL bot')) (json_escaped (apiNewHostname bot')) h1 h2
          \<and> replaced (double_escaped (ServerURL bot')) (double_escaped (apiNewHostname bot')) h2
               (ReplaceHostname bot' html))
       \<and> (\<forall>h1 h2 out.
            replaced (ServerURL bot') (apiNewHostname bot') html h1
          \<and> replaced (json_escaped (ServerURL bot')) (json_escaped (apiNewHostname bot')) h1 h2
          \<and> replaced (double_escaped (ServerURL bot')) (double_escaped (apiNewHostname bot')) h2 out
          \<longrightarrow> out = ReplaceHostname bot' html)
       \<and> (\<not> sublist (ServerURL bot') html
          \<and> \<not> sublist (json_escaped (ServerURL bot')) html
          \<and> \<not> sublist (double_escaped (ServerURL bot')) html
          \<longrightarrow> ReplaceHostname bot' html = html)"
proof (intro conjI allI impI)
  let ?u = "ServerURL bot'" and ?n = "apiNewHostname bot'"
  let ?h1 = "replace_each html ?u ?n"
  let ?h2 = "replace_each ?h1 (json_escaped ?u) (json_escaped ?n)"
  have e: "json_escaped ?u \<noteq> []" and d: "double_escaped ?u \<noteq> []"
    using assms by (simp_all add: escaped_nonempty)
  have "replaced ?u ?n html ?h1" using assms by (rule replace_each_replaced)
  moreover have "replaced (json_escaped ?u) (json_escaped ?n) ?h1 ?h2"
    using e by (rule replace_each_replaced)
  moreover have "replaced (double_escaped ?u) (double_escaped ?n) ?h2 (ReplaceHostname bot' html)"
    using replace_each_replaced [OF d] assms by (simp add: ReplaceHostname_passes)
  ultimately show "\<exists>h1 h2.
            replaced ?u ?n html h1
          \<and> replaced (json_escaped ?u) (json_escaped ?n) h1 h2
          \<and> replaced (double_escaped ?u) (double_escaped ?n) h2 (ReplaceHostname bot' html)"
    by blast
next
  fix h1 h2 out
  assume a: "replaced (ServerURL bot') (apiNewHostname bot') html h1
          \<and> replaced (json_escaped (ServerURL bot')) (json_escaped (apiNewHostname bot')) h1 h2
          \<and> replaced (double_escaped (ServerURL bot')) (double_escaped (apiNewHostname bot')) h2 out"
  have "h1 = replace_each html (ServerURL bot') (apiNewHostname bot')"
    using a assms by (simp add: replaced_unique)
  moreover have "h2 = replace_each h1 (json_escaped (ServerURL bot')) (json_escaped (apiNewHostname bot'))"
    using a assms by (simp add: replaced_unique escaped_nonempty)
  moreover have "out = replace_each h2 (double_escaped (ServerURL bot')) (double_escaped (apiNewHostname bot'))"
    using a assms by (simp add: replaced_unique escaped_nonempty)
  ultimately show "out = ReplaceHostname bot' html"
    using assms by (simp add: ReplaceHostname_passes)
next
  assume "\<not> sublist (ServerURL bot') html
          \<and> \<not> sublist (json_escaped (ServerURL bot')) html
          \<and> \<not> sublist (double_escaped (ServerURL bot')) html"
  then show "ReplaceHostname bot' html = html"
    using assms by (simp add: ReplaceHostname_passes replace_each_no_occurrence)
qed

theorem ReplaceHostname_successive_witness:
  "ServerURL local_proxy_config \<noteq> [] \<and>
   ReplaceHostname local_proxy_config page_three_forms =
     ''a=http://me:80/x b=http:'' @ [backslash, CHR ''/'', backslash, CHR ''/''] @ ''me:80 c=http:''
       @ [backslash, backslash, backslash, CHR ''/'', backslash, backslash, backslash, CHR ''/'']
       @ ''me:80'' \<and>
   (\<exists>h1 h2.
      replaced (ServerURL local_proxy_config) (apiNewHostname local_proxy_config) page_three_forms h1
    \<and> replaced (json_escaped (ServerURL local_proxy_config))
        (json_escaped (apiNewHostname local_proxy_config)) h1 h2
    \<and> replaced (double_escaped (ServerURL local_proxy_config))
        (double_escaped (apiNewHostname local_proxy_config)) h2
        (ReplaceHostname local_proxy_config page_three_forms))"
proof -
  have nonempty: "ServerURL local_proxy_config \<noteq> []"
    by (simp add: local_proxy_config_def)
  have run: "ReplaceHostname local_proxy_config page_three_forms =
     ''a=http://me:80/x b=http:'' @ [backslash, CHR ''/'', backslash, CHR ''/''] @ ''me:80 c=http:''
       @ [backslash, backslash, backslash, CHR ''/'', backslash, backslash, backslash, CHR ''/'']
       @ ''me:80''"
    by (simp add: local_proxy_config_def page_three_forms_def replace_defs)
  from ReplaceHostname_successive [OF nonempty, of page_three_forms] nonempty run
  show ?thesis by blast
qed

end
